theory Spec2Isabelle
  imports Complex_Main "HOL-Library.Multiset"
begin

section \<open>Python values reaching the strategy\<close>

text \<open>
  The strategy of \<^verbatim>\<open>src/strategy.py\<close> (class \<^verbatim>\<open>Struct_Prune_Aggregation\<close>) is
  embedded function by function. Exceptions are values of \<open>error\<close>; every function that can
  raise returns \<open>error + 'a\<close> with \<open>Inl\<close> the exception.

  Numbers. Example counts are Python integers and are modelled as \<open>int\<close>. The threshold
  \<^verbatim>\<open>self.aggregate_frac * tot_examples\<close> is a product of a float and an integer; the model
  keeps it as an exact rational product (\<open>aggregate_frac\<close> is a \<open>rat\<close>, \<open>3/10\<close> after
  \<^verbatim>\<open>__init__\<close>) and \<^verbatim>\<open>np.sum\<close> as the exact sum. The binary64 product 0.3 * T, compared
  with an integer tally, decides as the exact product does for every total T below 2^51,
  and the int64 accumulator of \<^verbatim>\<open>np.sum\<close> does not wrap there; beyond that range the
  model says nothing about the code.
\<close>

datatype error =
    KeyError string
  | IndexError
  | TypeError
  | AttributeError
  | ExternalError string

text \<open>A Python float: a finite one is a rational; infinities and NaN equal no integer.\<close>

datatype pyfloat = Finite rat | NonFinite

text \<open>
  What \<^verbatim>\<open>json.loads\<close> returns. An object is the resulting \<^verbatim>\<open>dict\<close>, written as an
  association list read with \<open>map_of\<close>.
\<close>

datatype json =
    JNull
  | JBool bool
  | JInt int
  | JFloat pyfloat
  | JStr string
  | JList "json list"
  | JObj "(string \<times> json) list"

text \<open>flwr's \<^verbatim>\<open>Scalar = Union[bool, bytes, float, int, str]\<close>; bytes are a \<open>string\<close>.\<close>

datatype scalar =
    SBool bool
  | SBytes string
  | SFloat pyfloat
  | SInt int
  | SStr string

type_synonym metrics_dict = "(string \<times> scalar) list"

text \<open>A NumPy array: the code reads its shape only.\<close>

record ndarray =
  shape :: "nat list"
  buffer :: string

record Parameters =
  tensors :: "string list"
  tensor_type :: string

record FitRes =
  parameters :: Parameters
  num_examples :: int
  metrics :: metrics_dict

record FitIns =
  ins_parameters :: Parameters
  ins_config :: metrics_dict

text \<open>\<^verbatim>\<open>failures: List[Union[Tuple[ClientProxy, FitRes], BaseException]]\<close>\<close>

datatype 'client failure =
    FailedResult 'client FitRes
  | FailedException error

datatype log_level = WARNING

type_synonym log_record = "log_level \<times> string"

section \<open>Collaborators outside the file\<close>

text \<open>
  \<^verbatim>\<open>parameters_to_ndarrays\<close> (flwr), \<^verbatim>\<open>json.loads(b.decode('utf-8'))\<close> (standard library),
  the server model's \<^verbatim>\<open>state_dict()\<close> (of which the loop reads the keys, in order),
  \<^verbatim>\<open>prune_model_with_indices\<close> (module \<^verbatim>\<open>prune\<close>; it may change the model in place, so it
  returns the model too) and FedAvg's \<^verbatim>\<open>num_fit_clients\<close> are not in the file. They are
  parameters of the embedding: every theorem holds for each behaviour they may have.
\<close>

record 'net externals =
  parameters_to_ndarrays :: "Parameters \<Rightarrow> error + ndarray list"
  json_loads_utf8 :: "string \<Rightarrow> error + json"
  state_dict :: "'net \<Rightarrow> string list"
  prune_model_with_indices :: "'net \<Rightarrow> nat list list \<Rightarrow> 'net \<times> (error + nat list list)"
  num_fit_clients :: "nat \<Rightarrow> nat \<times> nat"

record 'client ClientManager =
  num_available :: nat
  sample_clients :: "nat \<Rightarrow> nat \<Rightarrow> 'client list"

section \<open>The strategy object\<close>

text \<open>
  The fields \<^verbatim>\<open>__init__\<close> sets, and those of \<^verbatim>\<open>FedAvg\<close> that the two methods read
  (\<^verbatim>\<open>initial_parameters\<close>, \<^verbatim>\<open>accept_failures\<close>, \<^verbatim>\<open>fit_metrics_aggregation_fn\<close>).
\<close>

record 'net Struct_Prune_Aggregation =
  on_fit_config_fn :: "(int \<Rightarrow> error + metrics_dict) option"
  on_evaluate_config_fn :: "(int \<Rightarrow> error + metrics_dict) option"
  initial_parameters :: "Parameters option"
  accept_failures :: bool
  fit_metrics_aggregation_fn :: "((int \<times> metrics_dict) list \<Rightarrow> error + metrics_dict) option"
  central_parameters :: "Parameters option"
  aggregate_frac :: rat
  server_net :: 'net

text \<open>
  \<^verbatim>\<open>__init__\<close>: \<^verbatim>\<open>super().__init__()\<close> leaves FedAvg's defaults (no initial parameters,
  failures accepted, no metrics aggregation function); \<open>resnet18\<close> is the model
  \<^verbatim>\<open>ResNet18(num_classes=10)\<close> builds.
\<close>

definition init ::
  "(int \<Rightarrow> error + metrics_dict) option \<Rightarrow> (int \<Rightarrow> error + metrics_dict) option \<Rightarrow> 'net
    \<Rightarrow> 'net Struct_Prune_Aggregation" where
  "init fit_cfg eval_cfg resnet18 =
     \<lparr> on_fit_config_fn = fit_cfg,
       on_evaluate_config_fn = eval_cfg,
       initial_parameters = None,
       accept_failures = True,
       fit_metrics_aggregation_fn = None,
       central_parameters = None,
       aggregate_frac = 3 / 10,
       server_net = resnet18 \<rparr>"

section \<open>configure\_fit\<close>

text \<open>
  The assignment to \<^verbatim>\<open>self.central_parameters\<close> comes first, so the returned strategy has
  it also when the configuration callback raises.
\<close>

definition configure_fit ::
  "'net externals \<Rightarrow> 'net Struct_Prune_Aggregation \<Rightarrow> int \<Rightarrow> Parameters \<Rightarrow> 'client ClientManager
    \<Rightarrow> 'net Struct_Prune_Aggregation \<times> (error + ('client \<times> FitIns) list)" where
  "configure_fit ext self server_round params client_manager =
     (let self' = self\<lparr>central_parameters := Some params\<rparr> in
      case (case on_fit_config_fn self' of
              None \<Rightarrow> Inr []
            | Some f \<Rightarrow> f server_round) of
        Inl e \<Rightarrow> (self', Inl e)
      | Inr config \<Rightarrow>
          (let fit_ins = \<lparr>ins_parameters = params, ins_config = config\<rparr>;
               (sample_size, min_num_clients) = num_fit_clients ext (num_available client_manager);
               clients = sample_clients client_manager sample_size min_num_clients
           in (self', Inr (map (\<lambda>client. (client, fit_ins)) clients))))"

section \<open>aggregate\_fit: the pieces of the tally loop\<close>

text \<open>\<^verbatim>\<open>key.split('.')\<close>: always at least one piece.\<close>

fun split_dot :: "string \<Rightarrow> string list" where
  "split_dot [] = [[]]"
| "split_dot (c # cs) =
     (if c = CHR ''.'' then [] # split_dot cs
      else (case split_dot cs of
              [] \<Rightarrow> [[c]]
            | w # ws \<Rightarrow> (c # w) # ws))"

text \<open>
  \<^verbatim>\<open>key[:-1*len(key_list[-1])]\<close>: with an empty last piece the slice is \<^verbatim>\<open>key[:0]\<close>, the
  empty string.
\<close>

definition strip_last_piece :: "string \<Rightarrow> string list \<Rightarrow> string" where
  "strip_last_piece key key_list =
     (let n = length (last key_list) in
      if n = 0 then [] else take (length key - n) key)"

text \<open>\<^verbatim>\<open>key_list[-2]\<close>: IndexError on a list of one piece.\<close>

definition second_last :: "string list \<Rightarrow> error + string" where
  "second_last key_list =
     (if length key_list < 2 then Inl IndexError
      else Inr (key_list ! (length key_list - 2)))"

text \<open>
  \<^verbatim>\<open>re.match("^conv[1-2]+$", s)\<close>: \<^verbatim>\<open>conv\<close>, then one or more of the digits 1 and 2, up to
  the end of the string or to a single newline that ends it (Python's \<^verbatim>\<open>$\<close>).
\<close>

definition re_match_conv :: "string \<Rightarrow> bool" where
  "re_match_conv s =
     (let t = (if s \<noteq> [] \<and> last s = CHR 0x0A then butlast s else s);
          digits = drop 4 t
      in take 4 t = ''conv'' \<and> digits \<noteq> [] \<and> list_all (\<lambda>c. c = CHR ''1'' \<or> c = CHR ''2'') digits)"

text \<open>\<^verbatim>\<open>server_parameters[index].shape[0]\<close>\<close>

definition num_channels_at :: "ndarray list \<Rightarrow> nat \<Rightarrow> error + nat" where
  "num_channels_at server_parameters index =
     (if index < length server_parameters then
        (case shape (server_parameters ! index) of
           [] \<Rightarrow> Inl IndexError
         | n # _ \<Rightarrow> Inr n)
      else Inl IndexError)"

text \<open>
  \<^verbatim>\<open>client[key]\<close> on a decoded JSON value: a dict looks the key up, a list or a string
  refuses a string index, the other values are not subscriptable.
\<close>

fun py_getitem :: "json \<Rightarrow> string \<Rightarrow> error + json" where
  "py_getitem (JObj kvs) key =
     (case map_of kvs key of None \<Rightarrow> Inl (KeyError key) | Some v \<Rightarrow> Inr v)"
| "py_getitem _ key = Inl TypeError"

text \<open>
  \<^verbatim>\<open>channel_idx == v\<close> for an element of a decoded list: Python compares an int with an int,
  a bool (True is 1, False is 0) or a float by value; nothing else equals an int.
\<close>

fun py_eq_int :: "int \<Rightarrow> json \<Rightarrow> bool" where
  "py_eq_int i (JInt n) = (i = n)"
| "py_eq_int i (JBool b) = (i = (if b then 1 else 0))"
| "py_eq_int i (JFloat (Finite q)) = (of_int i = q)"
| "py_eq_int i _ = False"

text \<open>
  \<^verbatim>\<open>channel_idx in prune_ids\<close>: a list is searched, a dict is asked for the key (its keys
  are strings, so an int is never one), a string raises TypeError for an int on the left,
  and the remaining values are not iterable.
\<close>

fun py_contains :: "nat \<Rightarrow> json \<Rightarrow> error + bool" where
  "py_contains channel_idx (JList vs) = Inr (list_ex (py_eq_int (int channel_idx)) vs)"
| "py_contains channel_idx (JObj kvs) = Inr False"
| "py_contains channel_idx _ = Inl TypeError"

text \<open>Lines 121 and 122 for one client: does the client list the channel under the key?\<close>

definition client_lists_channel :: "string \<Rightarrow> nat \<Rightarrow> json \<Rightarrow> error + bool" where
  "client_lists_channel key channel_idx client =
     (case py_getitem client key of
        Inl e \<Rightarrow> Inl e
      | Inr prune_ids \<Rightarrow> py_contains channel_idx prune_ids)"

text \<open>
  The innermost loop, lines 116 to 123: one pass over \<^verbatim>\<open>enumerate(client_metrics)\<close> for a
  channel, adding \<^verbatim>\<open>num_examples[client_idx]\<close> for each client that lists the channel.
\<close>

fun channel_cardinality ::
  "string \<Rightarrow> nat \<Rightarrow> int list \<Rightarrow> nat \<Rightarrow> json list \<Rightarrow> int \<Rightarrow> error + int" where
  "channel_cardinality key channel_idx num_ex client_idx [] acc = Inr acc"
| "channel_cardinality key channel_idx num_ex client_idx (client # rest) acc =
     (case client_lists_channel key channel_idx client of
        Inl e \<Rightarrow> Inl e
      | Inr True \<Rightarrow>
          (if client_idx < length num_ex
           then channel_cardinality key channel_idx num_ex (Suc client_idx) rest
                  (acc + num_ex ! client_idx)
           else Inl IndexError)
      | Inr False \<Rightarrow> channel_cardinality key channel_idx num_ex (Suc client_idx) rest acc)"

text \<open>Lines 113 to 124: \<^verbatim>\<open>cardinalities\<close>, one entry per channel of \<^verbatim>\<open>range(num_channels)\<close>.\<close>

fun cardinalities_loop ::
  "string \<Rightarrow> int list \<Rightarrow> json list \<Rightarrow> nat list \<Rightarrow> error + int list" where
  "cardinalities_loop key num_ex client_metrics [] = Inr []"
| "cardinalities_loop key num_ex client_metrics (channel_idx # chs) =
     (case channel_cardinality key channel_idx num_ex 0 client_metrics 0 of
        Inl e \<Rightarrow> Inl e
      | Inr x \<Rightarrow>
          (case cardinalities_loop key num_ex client_metrics chs of
             Inl e \<Rightarrow> Inl e
           | Inr xs \<Rightarrow> Inr (x # xs)))"

definition cardinalities ::
  "string \<Rightarrow> int list \<Rightarrow> json list \<Rightarrow> nat \<Rightarrow> error + int list" where
  "cardinalities key num_ex client_metrics num_channels =
     cardinalities_loop key num_ex client_metrics [0..<num_channels]"

text \<open>
  Lines 125 and 126: the channels whose cardinality reaches
  \<^verbatim>\<open>self.aggregate_frac * tot_examples\<close>.
\<close>

definition threshold_filter :: "rat \<Rightarrow> int \<Rightarrow> int list \<Rightarrow> nat list" where
  "threshold_filter agg_frac tot_examples cards =
     map fst (filter (\<lambda>(channel_idx, x). of_int x \<ge> agg_frac * of_int tot_examples)
                (enumerate 0 cards))"

text \<open>
  The loop over \<^verbatim>\<open>enumerate(model_dict)\<close>, lines 104 to 126. For each key whose second to
  last piece matches it yields the local \<^verbatim>\<open>cardinalities\<close> and the list appended to
  \<^verbatim>\<open>server_prune_ids\<close>; the source keeps the second only, the first is returned here so
  that the tallies can be spoken about.
\<close>

fun tally_loop ::
  "rat \<Rightarrow> ndarray list \<Rightarrow> json list \<Rightarrow> int list \<Rightarrow> int \<Rightarrow> nat \<Rightarrow> string list
    \<Rightarrow> error + (int list \<times> nat list) list" where
  "tally_loop agg_frac server_parameters client_metrics num_ex tot_examples index [] = Inr []"
| "tally_loop agg_frac server_parameters client_metrics num_ex tot_examples index (key # keys) =
     (let key_list = split_dot key;
          key' = strip_last_piece key key_list
      in case second_last key_list of
           Inl e \<Rightarrow> Inl e
         | Inr piece \<Rightarrow>
             if re_match_conv piece then
               (let key'' = key' @ ''out'' in
                case num_channels_at server_parameters index of
                  Inl e \<Rightarrow> Inl e
                | Inr num_channels \<Rightarrow>
                    (case cardinalities key'' num_ex client_metrics num_channels of
                       Inl e \<Rightarrow> Inl e
                     | Inr cards \<Rightarrow>
                         (case tally_loop agg_frac server_parameters client_metrics num_ex
                                 tot_examples (Suc index) keys of
                            Inl e \<Rightarrow> Inl e
                          | Inr ids \<Rightarrow>
                              Inr ((cards, threshold_filter agg_frac tot_examples cards) # ids))))
             else tally_loop agg_frac server_parameters client_metrics num_ex tot_examples
                    (Suc index) keys)"

section \<open>aggregate\_fit\<close>

text \<open>A list comprehension whose element expression may raise: the first exception ends it.\<close>

fun traverse :: "('a \<Rightarrow> error + 'b) \<Rightarrow> 'a list \<Rightarrow> error + 'b list" where
  "traverse f [] = Inr []"
| "traverse f (x # xs) =
     (case f x of
        Inl e \<Rightarrow> Inl e
      | Inr y \<Rightarrow> (case traverse f xs of Inl e \<Rightarrow> Inl e | Inr ys \<Rightarrow> Inr (y # ys)))"

text \<open>
  Line 97 for one result, \<^verbatim>\<open>json.loads(res.metrics['prune_indices'].decode('utf-8'))\<close>:
  KeyError without the metric, AttributeError when the scalar is not bytes (no other
  scalar has \<^verbatim>\<open>decode\<close>).
\<close>

definition decode_prune_indices :: "'net externals \<Rightarrow> FitRes \<Rightarrow> error + json" where
  "decode_prune_indices ext res =
     (case map_of (metrics res) ''prune_indices'' of
        None \<Rightarrow> Inl (KeyError ''prune_indices'')
      | Some (SBytes b) \<Rightarrow> json_loads_utf8 ext b
      | Some _ \<Rightarrow> Inl AttributeError)"

text \<open>
  Lines 92 to 126, from the conversions to the end of the loop: the deserialised server
  parameters and, per matching layer, the cardinalities and the prune list.
  \<^verbatim>\<open>parameters_to_ndarrays(None)\<close> raises AttributeError.
\<close>

definition round_tally ::
  "'net externals \<Rightarrow> 'net Struct_Prune_Aggregation \<Rightarrow> ('client \<times> FitRes) list
    \<Rightarrow> error + (ndarray list \<times> (int list \<times> nat list) list)" where
  "round_tally ext self results =
     (case traverse (\<lambda>(_, fit_res). parameters_to_ndarrays ext (parameters fit_res)) results of
        Inl e \<Rightarrow> Inl e
      | Inr client_parameters \<Rightarrow>
     (case (case central_parameters self of
              None \<Rightarrow> Inl AttributeError
            | Some p \<Rightarrow> parameters_to_ndarrays ext p) of
        Inl e \<Rightarrow> Inl e
      | Inr server_parameters \<Rightarrow>
     (case traverse (\<lambda>(_, res). decode_prune_indices ext res) results of
        Inl e \<Rightarrow> Inl e
      | Inr client_metrics \<Rightarrow>
          (let num_ex = map (\<lambda>(_, res). num_examples res) results;
               model_dict = state_dict ext (server_net self);
               tot_examples = sum_list num_ex
           in case tally_loop (aggregate_frac self) server_parameters client_metrics num_ex
                     tot_examples 0 model_dict of
                Inl e \<Rightarrow> Inl e
              | Inr layers \<Rightarrow> Inr (server_parameters, layers)))))"

text \<open>
  The method. It returns the strategy (the pruning call may have changed
  \<^verbatim>\<open>self.server_net\<close>), the records logged, and the exception raised or the pair returned;
  \<^verbatim>\<open>{}\<close> is the empty list of metrics.
\<close>

definition aggregate_fit ::
  "'net externals \<Rightarrow> 'net Struct_Prune_Aggregation \<Rightarrow> int \<Rightarrow> ('client \<times> FitRes) list
    \<Rightarrow> 'client failure list
    \<Rightarrow> 'net Struct_Prune_Aggregation \<times> log_record list
        \<times> (error + (ndarray list option \<times> metrics_dict))" where
  "aggregate_fit ext self server_round results failures =
     (if results = [] then (self, [], Inr (None, []))
      else if \<not> accept_failures self \<and> failures \<noteq> [] then (self, [], Inr (None, []))
      else
        (case round_tally ext self results of
           Inl e \<Rightarrow> (self, [], Inl e)
         | Inr (server_parameters, layers) \<Rightarrow>
             (let server_prune_ids = map snd layers in
              case prune_model_with_indices ext (server_net self) server_prune_ids of
                (net', Inl e) \<Rightarrow> (self\<lparr>server_net := net'\<rparr>, [], Inl e)
              | (net', Inr final_server_prune_indices) \<Rightarrow>
                  (let self' = self\<lparr>server_net := net'\<rparr> in
                   case fit_metrics_aggregation_fn self' of
                     Some f \<Rightarrow>
                       (case f (map (\<lambda>(_, res). (num_examples res, metrics res)) results) of
                          Inl e \<Rightarrow> (self', [], Inl e)
                        | Inr metrics_aggregated \<Rightarrow>
                            (self', [], Inr (Some server_parameters, metrics_aggregated)))
                   | None \<Rightarrow>
                       (self',
                        if server_round = 1
                        then [(WARNING, ''No fit_metrics_aggregation_fn provided'')] else [],
                        Inr (Some server_parameters, []))))))"

section \<open>Rounds in sequence\<close>


section \<open>The spec's vocabulary\<close>

text \<open>
  ChannelTally (spec, section 3 and 4.2): for a layer key and a channel, the sum of the
  weights of the clients whose proposal lists the channel. A proposal is a decoded client
  value paired with the client's example count.
\<close>

definition weighted_votes :: "string \<Rightarrow> nat \<Rightarrow> (json \<times> int) list \<Rightarrow> int" where
  "weighted_votes key channel_idx proposals =
     (\<Sum>(client, w) \<leftarrow> proposals.
        if client_lists_channel key channel_idx client = Inr True then w else 0)"

text \<open>
  The prunable layers (spec, section 4.1) of a list of state-dict keys, as the loop finds
  them: position in the list, counted from \<open>index\<close>, and the key the clients' proposals
  are read under.
\<close>

fun prunable_layers :: "nat \<Rightarrow> string list \<Rightarrow> (nat \<times> string) list" where
  "prunable_layers index [] = []"
| "prunable_layers index (key # keys) =
     (case second_last (split_dot key) of
        Inl e \<Rightarrow> prunable_layers (Suc index) keys
      | Inr piece \<Rightarrow>
          if re_match_conv piece
          then (index, strip_last_piece key (split_dot key) @ ''out'') # prunable_layers (Suc index) keys
          else prunable_layers (Suc index) keys)"

text \<open>The proposals of a round: each result's decoded metric with its example count.\<close>

definition proposals_of :: "'net externals \<Rightarrow> ('client \<times> FitRes) list \<Rightarrow> (json \<times> int) list" where
  "proposals_of ext results =
     map (\<lambda>(_, res). (case decode_prune_indices ext res of Inr j \<Rightarrow> j | Inl e \<Rightarrow> JNull,
                       num_examples res)) results"

text \<open>The channel count of the tensor at a position; 0 where the code would raise.\<close>

definition channel_count :: "ndarray list \<Rightarrow> nat \<Rightarrow> nat" where
  "channel_count server_parameters index =
     (case num_channels_at server_parameters index of Inr n \<Rightarrow> n | Inl e \<Rightarrow> 0)"

text \<open>
  What the spec asks of one prunable layer (section 4.2): the tally of every channel, and the
  channels whose tally is at least the fraction times the total weight.
\<close>

definition layer_tally ::
  "rat \<Rightarrow> int \<Rightarrow> ndarray list \<Rightarrow> (json \<times> int) list \<Rightarrow> nat \<times> string \<Rightarrow> int list \<times> nat list" where
  "layer_tally agg_frac tot_examples server_parameters proposals layer =
     (let cards = map (\<lambda>c. weighted_votes (snd layer) c proposals)
                    [0..<channel_count server_parameters (fst layer)]
      in (cards, filter (\<lambda>c. agg_frac * of_int tot_examples \<le> of_int (cards ! c)) [0..<length cards]))"

text \<open>
  A layer the loop gets through without an exception: its tensor has a first dimension, and
  every client answers for every channel of it.
\<close>

definition layer_ok :: "ndarray list \<Rightarrow> json list \<Rightarrow> nat \<times> string \<Rightarrow> bool" where
  "layer_ok server_parameters client_metrics layer \<longleftrightarrow>
     (\<exists>n. num_channels_at server_parameters (fst layer) = Inr n) \<and>
     (\<forall>c < channel_count server_parameters (fst layer). \<forall>cl\<in>set client_metrics.
        \<exists>b. client_lists_channel (snd layer) c cl = Inr b)"

text \<open>The sum of all participating clients' example counts.\<close>

definition total_examples :: "('client \<times> FitRes) list \<Rightarrow> int" where
  "total_examples results = (\<Sum>r\<leftarrow>results. num_examples (snd r))"


section \<open>A small deployment for the examples\<close>

text \<open>
  Stand-ins for the collaborators, used only to run the methods on concrete inputs. A
  tensor's bytes deserialise to a one-dimensional array as long as the bytes; a payload of
  digit characters decodes to \<^verbatim>\<open>{"conv1.out": [digits]}\<close> (the character \<open>c\<close> stands for
  the integer \<open>c - 48\<close>), the payload \<^verbatim>\<open>{}\<close> to the empty object, and \<^verbatim>\<open>!\<close> does not decode;
  the model is its list of state-dict keys and pruning leaves it as it is.
\<close>

definition stub_loads :: "string \<Rightarrow> error + json" where
  "stub_loads b =
     (if b = ''!'' then Inl (ExternalError ''JSONDecodeError'')
      else if b = ''{}'' then Inr (JObj [])
      else Inr (JObj [(''conv1.out'', JList (map (\<lambda>c. JInt (int (of_char c) - 48)) b))]))"

definition stub_externals :: "string list externals" where
  "stub_externals =
     \<lparr> parameters_to_ndarrays =
         (\<lambda>p. Inr (map (\<lambda>t. \<lparr>shape = [length t], buffer = t\<rparr>) (tensors p))),
       json_loads_utf8 = stub_loads,
       state_dict = (\<lambda>net. net),
       prune_model_with_indices = (\<lambda>net ids. (net, Inr ids)),
       num_fit_clients = (\<lambda>n. (n, 2)) \<rparr>"

definition stub_parameters :: Parameters where
  "stub_parameters = \<lparr>tensors = [''abcdefgh'', ''abcdefgh''], tensor_type = ''numpy.ndarray''\<rparr>"

definition stub_manager :: "nat ClientManager" where
  "stub_manager = \<lparr>num_available = 3, sample_clients = (\<lambda>n m. [0..<n])\<rparr>"

text \<open>A fresh strategy over a model with one convolution and one normalisation tensor.\<close>

definition fresh_strategy :: "string list Struct_Prune_Aggregation" where
  "fresh_strategy = init None None [''conv1.weight'', ''bn1.weight'']"

text \<open>The same strategy after \<^verbatim>\<open>configure_fit\<close> has broadcast the parameters for round 1.\<close>

definition stub_strategy :: "string list Struct_Prune_Aggregation" where
  "stub_strategy = fst (configure_fit stub_externals fresh_strategy 1 stub_parameters stub_manager)"

definition client_result :: "string \<Rightarrow> int \<Rightarrow> FitRes" where
  "client_result payload n =
     \<lparr>parameters = stub_parameters, num_examples = n,
      metrics = [(''prune_indices'', SBytes payload)]\<rparr>"

text \<open>
  The scenario of the spec, section 8: weights 10, 20 and 70; the first and the third client
  propose channel 5, the first alone channel 6; the layer has 8 channels.
\<close>

definition scenario :: "(nat \<times> FitRes) list" where
  "scenario = [(0, client_result ''56'' 10), (1, client_result [] 20), (2, client_result ''5'' 70)]"

text \<open>
  Weights 30, 29 and 41 (total 100, threshold 30): channel 6 has tally 30, channel 7 has 29.
\<close>

definition tie_scenario :: "(nat \<times> FitRes) list" where
  "tie_scenario =
     [(0, client_result ''56'' 30), (1, client_result ''7'' 29), (2, client_result ''5'' 41)]"





definition stub_tensor :: ndarray where
  "stub_tensor = \<lparr>shape = [8], buffer = ''abcdefgh''\<rparr>"

definition missing_fn_warning :: log_record where
  "missing_fn_warning = (WARNING, ''No fit_metrics_aggregation_fn provided'')"

section \<open>Facts about the loops\<close>

lemma traverse_Inr_iff:
  "traverse f xs = Inr ys \<longleftrightarrow> map f xs = map Inr ys"
proof (induction xs arbitrary: ys)
  case Nil
  then show ?case by auto
next
  case (Cons x xs)
  show ?case
  proof (cases "f x")
    case (Inl e)
    then show ?thesis by (cases ys) auto
  next
    case (Inr y)
    show ?thesis
    proof (cases "traverse f xs")
      case (Inl e)
      with Cons.IH have "\<And>zs. map f xs \<noteq> map Inr zs" by auto
      with Inl Inr show ?thesis by (cases ys) auto
    next
      case r: (Inr zs)
      with Cons.IH have "map f xs = map Inr zs" by auto
      with r Inr show ?thesis by (cases ys) (auto simp: inj_map_eq_map [OF inj_Inr])
    qed
  qed
qed

lemma traverse_Inl_iff:
  "(\<exists>e. traverse f xs = Inl e) \<longleftrightarrow> (\<exists>x\<in>set xs. \<exists>e. f x = Inl e)"
  by (induction xs) (auto split: sum.splits)

lemma weighted_votes_Nil [simp]: "weighted_votes key c [] = 0"
  by (simp add: weighted_votes_def)

lemma weighted_votes_Cons [simp]:
  "weighted_votes key c ((cl, w) # ps) =
     (if client_lists_channel key c cl = Inr True then w else 0) + weighted_votes key c ps"
  by (simp add: weighted_votes_def)

lemma channel_cardinality_Inr_iff:
  "client_idx + length cms \<le> length ne \<Longrightarrow>
   channel_cardinality key c ne client_idx cms acc = Inr v \<longleftrightarrow>
     (\<forall>cl\<in>set cms. \<exists>b. client_lists_channel key c cl = Inr b) \<and>
     v = acc + weighted_votes key c (zip cms (drop client_idx ne))"
proof (induction cms arbitrary: client_idx acc)
  case Nil
  then show ?case by auto
next
  case (Cons cl cms)
  from Cons.prems have lt: "client_idx < length ne" and le: "Suc client_idx + length cms \<le> length ne"
    by simp_all
  have dr: "drop client_idx ne = ne ! client_idx # drop (Suc client_idx) ne"
    using lt by (simp add: Cons_nth_drop_Suc)
  show ?case
  proof (cases "client_lists_channel key c cl")
    case (Inl e)
    then show ?thesis by simp
  next
    case (Inr b)
    then show ?thesis
      using Cons.IH [OF le] lt dr by (cases b) auto
  qed
qed

lemma channel_cardinality_Inl_iff:
  "client_idx + length cms \<le> length ne \<Longrightarrow>
   (\<exists>e. channel_cardinality key c ne client_idx cms acc = Inl e) \<longleftrightarrow>
     (\<exists>cl\<in>set cms. \<exists>e. client_lists_channel key c cl = Inl e)"
proof -
  assume a: "client_idx + length cms \<le> length ne"
  have "(\<exists>e. channel_cardinality key c ne client_idx cms acc = Inl e) \<longleftrightarrow>
        \<not> (\<exists>v. channel_cardinality key c ne client_idx cms acc = Inr v)"
    by (cases "channel_cardinality key c ne client_idx cms acc") auto
  also have "\<dots> \<longleftrightarrow> \<not> (\<forall>cl\<in>set cms. \<exists>b. client_lists_channel key c cl = Inr b)"
    using channel_cardinality_Inr_iff [OF a] by simp
  also have "\<dots> \<longleftrightarrow> (\<exists>cl\<in>set cms. \<exists>e. client_lists_channel key c cl = Inl e)"
    by (metis sum.exhaust sum.distinct(1))
  finally show ?thesis .
qed

lemma cardinalities_loop_Inr_iff:
  "length cms \<le> length ne \<Longrightarrow>
   cardinalities_loop key ne cms chs = Inr cards \<longleftrightarrow>
     (\<forall>c\<in>set chs. \<forall>cl\<in>set cms. \<exists>b. client_lists_channel key c cl = Inr b) \<and>
     cards = map (\<lambda>c. weighted_votes key c (zip cms ne)) chs"
proof (induction chs arbitrary: cards)
  case Nil
  then show ?case by auto
next
  case (Cons c chs)
  have a: "0 + length cms \<le> length ne" using Cons.prems by simp
  note cc = channel_cardinality_Inr_iff [OF a, of key c 0, simplified]
  note ih = Cons.IH [OF Cons.prems]
  show ?case
  proof (cases "channel_cardinality key c ne 0 cms 0")
    case (Inl e)
    with cc show ?thesis by auto
  next
    case (Inr x)
    with cc have ok: "\<forall>cl\<in>set cms. \<exists>b. client_lists_channel key c cl = Inr b"
      and x: "x = weighted_votes key c (zip cms ne)" by auto
    show ?thesis
    proof (cases "cardinalities_loop key ne cms chs")
      case (Inl e)
      with ih Inr show ?thesis by auto
    next
      case r: (Inr xs)
      with ih have "\<forall>c\<in>set chs. \<forall>cl\<in>set cms. \<exists>b. client_lists_channel key c cl = Inr b"
        and "xs = map (\<lambda>c. weighted_votes key c (zip cms ne)) chs" by auto
      with Inr r ok x show ?thesis by auto
    qed
  qed
qed

lemma threshold_filter_eq:
  "threshold_filter f T cards =
     filter (\<lambda>c. f * of_int T \<le> of_int (cards ! c)) [0..<length cards]"
proof -
  have "map fst (filter (\<lambda>(c, x). f * of_int T \<le> of_int x) (enumerate n cards)) =
        filter (\<lambda>c. f * of_int T \<le> of_int (cards ! (c - n))) [n..<n + length cards]" for n
  proof (induction cards arbitrary: n)
    case Nil
    then show ?case by simp
  next
    case (Cons x xs)
    have u: "[n..<n + length (x # xs)] = n # [Suc n..<Suc n + length xs]"
      using upt_conv_Cons [of n "Suc (n + length xs)"] by (simp del: upt_Suc)
    have "filter (\<lambda>c. f * of_int T \<le> of_int ((x # xs) ! (c - n))) [Suc n..<Suc n + length xs] =
          filter (\<lambda>c. f * of_int T \<le> of_int (xs ! (c - Suc n))) [Suc n..<Suc n + length xs]"
      by (rule filter_cong) (auto simp: nth_Cons')
    then show ?case
      unfolding u using Cons.IH [of "Suc n"] by simp
  qed
  from this [of 0] show ?thesis by (simp add: threshold_filter_def)
qed

lemma cardinalities_Inr_iff:
  "length cms \<le> length ne \<Longrightarrow>
   cardinalities key ne cms n = Inr cards \<longleftrightarrow>
     (\<forall>c<n. \<forall>cl\<in>set cms. \<exists>b. client_lists_channel key c cl = Inr b) \<and>
     cards = map (\<lambda>c. weighted_votes key c (zip cms ne)) [0..<n]"
  by (auto simp add: cardinalities_def cardinalities_loop_Inr_iff)

lemma tally_loop_Inr_iff:
  "length cms \<le> length ne \<Longrightarrow>
   tally_loop f sp cms ne T index keys = Inr layers \<longleftrightarrow>
     (\<forall>key\<in>set keys. \<exists>p. second_last (split_dot key) = Inr p) \<and>
     (\<forall>layer\<in>set (prunable_layers index keys). layer_ok sp cms layer) \<and>
     layers = map (layer_tally f T sp (zip cms ne)) (prunable_layers index keys)"
proof (induction keys arbitrary: index layers)
  case Nil
  then show ?case by auto
next
  case (Cons key keys)
  note ih = Cons.IH [OF Cons.prems, of "Suc index"]
  show ?case
  proof (cases "second_last (split_dot key)")
    case (Inl e)
    then show ?thesis by simp
  next
    case piece: (Inr piece)
    show ?thesis
    proof (cases "re_match_conv piece")
      case False
      with piece ih show ?thesis by simp
    next
      case True
      let ?k = "strip_last_piece key (split_dot key) @ ''out''"
      show ?thesis
      proof (cases "num_channels_at sp index")
        case (Inl e)
        with piece True show ?thesis by (simp add: layer_ok_def)
      next
        case n: (Inr n)
        then have cc: "channel_count sp index = n" by (simp add: channel_count_def)
        note cd = cardinalities_Inr_iff [OF Cons.prems, of ?k n]
        show ?thesis
        proof (cases "cardinalities ?k ne cms n")
          case (Inl e)
          with cd have "\<not> (\<forall>c<n. \<forall>cl\<in>set cms. \<exists>b. client_lists_channel ?k c cl = Inr b)"
            by auto
          with piece True n Inl cc show ?thesis by (simp add: layer_ok_def)
        next
          case cards: (Inr cards)
          with cd have ok: "\<forall>c<n. \<forall>cl\<in>set cms. \<exists>b. client_lists_channel ?k c cl = Inr b"
            and ceq: "cards = map (\<lambda>c. weighted_votes ?k c (zip cms ne)) [0..<n]" by auto
          have lk: "layer_ok sp cms (index, ?k)"
            using ok n cc by (simp add: layer_ok_def)
          have lt: "layer_tally f T sp (zip cms ne) (index, ?k) = (cards, threshold_filter f T cards)"
            using ceq cc by (simp add: layer_tally_def threshold_filter_eq Let_def)
          show ?thesis
          proof (cases "tally_loop f sp cms ne T (Suc index) keys")
            case (Inl e)
            with ih have "\<And>ls. \<not> ((\<forall>key\<in>set keys. \<exists>p. second_last (split_dot key) = Inr p) \<and>
                (\<forall>layer\<in>set (prunable_layers (Suc index) keys). layer_ok sp cms layer) \<and>
                ls = map (layer_tally f T sp (zip cms ne)) (prunable_layers (Suc index) keys))"
              by auto
            with piece True n cards Inl show ?thesis by auto
          next
            case r: (Inr ls)
            with ih have "(\<forall>key\<in>set keys. \<exists>p. second_last (split_dot key) = Inr p)"
              "(\<forall>layer\<in>set (prunable_layers (Suc index) keys). layer_ok sp cms layer)"
              "ls = map (layer_tally f T sp (zip cms ne)) (prunable_layers (Suc index) keys)"
              by auto
            with piece True n cards r lk lt show ?thesis by auto
          qed
        qed
      qed
    qed
  qed
qed

lemma traverse_results_Inr:
  "traverse (\<lambda>(c, r). g r) results = Inr ys \<longleftrightarrow> map (\<lambda>x. g (snd x)) results = map Inr ys"
  by (simp add: traverse_Inr_iff case_prod_unfold)

lemma traverse_results_Inl:
  "(\<exists>e. traverse (\<lambda>(c, r). g r) results = Inl e) \<longleftrightarrow>
     \<not> (\<forall>x\<in>set results. \<exists>y. g (snd x) = Inr y)"
proof -
  have "(\<exists>e. traverse (\<lambda>(c, r). g r) results = Inl e) \<longleftrightarrow>
        (\<exists>x\<in>set results. \<exists>e. g (snd x) = Inl e)"
    by (simp add: traverse_Inl_iff case_prod_unfold)
  also have "\<dots> \<longleftrightarrow> \<not> (\<forall>x\<in>set results. \<exists>y. g (snd x) = Inr y)"
    by (metis sum.exhaust sum.distinct(1))
  finally show ?thesis .
qed

lemma map_eq_map_Inr_iff:
  "(\<exists>ys. map h xs = map Inr ys) \<longleftrightarrow> (\<forall>x\<in>set xs. \<exists>y. h x = Inr y)"
proof (induction xs)
  case Nil
  then show ?case by simp
next
  case (Cons x xs)
  show ?case
  proof
    assume "\<exists>ys. map h (x # xs) = map Inr ys"
    then obtain ys where ys: "map h (x # xs) = map Inr ys" ..
    then obtain y ys' where "ys = y # ys'" by (cases ys) auto
    with ys Cons.IH show "\<forall>x\<in>set (x # xs). \<exists>y. h x = Inr y" by auto
  next
    assume a: "\<forall>x\<in>set (x # xs). \<exists>y. h x = Inr y"
    then obtain y where y: "h x = Inr y" by auto
    from a Cons.IH obtain ys where "map h xs = map Inr ys" by auto
    with y have "map h (x # xs) = map Inr (y # ys)" by simp
    then show "\<exists>ys. map h (x # xs) = map Inr ys" ..
  qed
qed

lemma decoded_proposals:
  assumes "map (\<lambda>x. decode_prune_indices ext (snd x)) results = map Inr cms"
  shows "zip cms (map (\<lambda>(c, res). num_examples res) results) = proposals_of ext results"
    and "cms = map fst (proposals_of ext results)"
    and "length cms = length results"
proof -
  from assms have len: "length cms = length results"
    by (metis length_map)
  have nth: "decode_prune_indices ext (snd (results ! i)) = Inr (cms ! i)" if "i < length results" for i
    using assms that len by (metis nth_map)
  show "zip cms (map (\<lambda>(c, res). num_examples res) results) = proposals_of ext results"
    by (rule nth_equalityI) (auto simp: len proposals_of_def nth case_prod_unfold)
  show "cms = map fst (proposals_of ext results)"
    by (rule nth_equalityI) (auto simp: len proposals_of_def nth case_prod_unfold)
  show "length cms = length results" by (rule len)
qed

lemma round_tally_Inr_iff:
  "round_tally ext self results = Inr (sp, layers) \<longleftrightarrow>
     (\<forall>r\<in>set results. \<exists>ps. parameters_to_ndarrays ext (parameters (snd r)) = Inr ps) \<and>
     (\<exists>p. central_parameters self = Some p \<and> parameters_to_ndarrays ext p = Inr sp) \<and>
     (\<forall>r\<in>set results. \<exists>j. decode_prune_indices ext (snd r) = Inr j) \<and>
     (\<forall>key\<in>set (state_dict ext (server_net self)). \<exists>p. second_last (split_dot key) = Inr p) \<and>
     (\<forall>layer\<in>set (prunable_layers 0 (state_dict ext (server_net self))).
        layer_ok sp (map fst (proposals_of ext results)) layer) \<and>
     layers = map (layer_tally (aggregate_frac self) (total_examples results) sp
                     (proposals_of ext results))
                (prunable_layers 0 (state_dict ext (server_net self)))"
  (is "?lhs \<longleftrightarrow> ?A \<and> ?B \<and> ?C \<and> ?D")
proof (cases "traverse (\<lambda>(_, fit_res). parameters_to_ndarrays ext (parameters fit_res)) results")
  case (Inl e)
  then have "\<exists>e. traverse (\<lambda>(_, fit_res). parameters_to_ndarrays ext (parameters fit_res)) results = Inl e"
    by blast
  then have "\<not> ?A" by (simp only: traverse_results_Inl not_False_eq_True)
  with Inl show ?thesis by (simp add: round_tally_def)
next
  case cp: (Inr client_parameters)
  then have A: ?A
    using map_eq_map_Inr_iff [of "\<lambda>x. parameters_to_ndarrays ext (parameters (snd x))" results]
    by (auto simp: traverse_results_Inr)
  show ?thesis
  proof (cases "case central_parameters self of None \<Rightarrow> Inl AttributeError
                | Some p \<Rightarrow> parameters_to_ndarrays ext p")
    case (Inl e)
    then have "\<not> ?B" by (auto split: option.splits)
    with cp Inl show ?thesis by (simp add: round_tally_def)
  next
    case spr: (Inr sp')
    then have B: "?B \<longleftrightarrow> sp' = sp" by (auto split: option.splits)
    show ?thesis
    proof (cases "traverse (\<lambda>(_, res). decode_prune_indices ext res) results")
      case (Inl e)
      then have "\<exists>e. traverse (\<lambda>(_, res). decode_prune_indices ext res) results = Inl e" by blast
      then have "\<not> (\<forall>r\<in>set results. \<exists>j. decode_prune_indices ext (snd r) = Inr j)"
        by (simp only: traverse_results_Inl not_False_eq_True)
      with cp spr Inl show ?thesis by (simp add: round_tally_def)
    next
      case cm: (Inr cms)
      then have m: "map (\<lambda>x. decode_prune_indices ext (snd x)) results = map Inr cms"
        by (simp add: traverse_results_Inr)
      then have C1: "\<forall>r\<in>set results. \<exists>j. decode_prune_indices ext (snd r) = Inr j"
        using map_eq_map_Inr_iff [of "\<lambda>x. decode_prune_indices ext (snd x)" results] by blast
      note dp = decoded_proposals [OF m]
      have len: "length cms \<le> length (map (\<lambda>(c, res). num_examples res) results)"
        using dp(3) by simp
      have tot: "sum_list (map (\<lambda>(c, res). num_examples res) results) = total_examples results"
        by (simp add: total_examples_def case_prod_unfold)
      note tl = tally_loop_Inr_iff [OF len, of "aggregate_frac self" sp'
          "total_examples results" 0 "state_dict ext (server_net self)", unfolded dp(1)]
      show ?thesis
      proof (cases "sp' = sp")
        case True
        show ?thesis
          unfolding round_tally_def cp spr cm Let_def tot
          using tl [of layers] A B C1 True dp(2)
          by (auto split: sum.splits)
      next
        case False
        with B have "\<not> ?B" by simp
        with False show ?thesis
          unfolding round_tally_def cp spr cm Let_def tot
          by (auto split: sum.splits)
      qed
    qed
  qed
qed

section \<open>The tally of a round, layer by layer\<close>

lemma layer_tally_length:
  "length (fst (layer_tally f T sp ps layer)) = channel_count sp (fst layer)"
  by (simp add: layer_tally_def Let_def)


lemma layer_tally_snd:
  "snd (layer_tally f T sp ps layer) =
     filter (\<lambda>c. f * of_int T \<le> of_int (weighted_votes (snd layer) c ps))
       [0..<channel_count sp (fst layer)]"
  by (auto simp: layer_tally_def Let_def intro: filter_cong)


lemma round_tally_layers:
  assumes "round_tally ext self results = Inr (sp, layers)"
  shows "length layers = length (prunable_layers 0 (state_dict ext (server_net self)))"
    and "j < length layers \<Longrightarrow>
         layers ! j = layer_tally (aggregate_frac self) (total_examples results) sp
            (proposals_of ext results) (prunable_layers 0 (state_dict ext (server_net self)) ! j)"
    and "j < length layers \<Longrightarrow>
         layer_ok sp (map fst (proposals_of ext results))
            (prunable_layers 0 (state_dict ext (server_net self)) ! j)"
  using assms by (auto simp: round_tally_Inr_iff)

section \<open>The order of the results\<close>

lemma weighted_votes_mset:
  assumes "mset ps' = mset ps"
  shows "weighted_votes key c ps' = weighted_votes key c ps"
proof -
  define g where "g = (\<lambda>(client, w). if client_lists_channel key c client = Inr True then w else (0::int))"
  have "sum_list (map g ps') = sum_mset (mset (map g ps'))"
    by (simp only: sum_mset_sum_list)
  also have "\<dots> = sum_mset (mset (map g ps))"
    using assms by (simp only: mset_map)
  also have "\<dots> = sum_list (map g ps)"
    by (simp only: sum_mset_sum_list)
  finally show ?thesis by (simp only: weighted_votes_def g_def)
qed

lemma layer_tally_mset:
  assumes "mset ps' = mset ps"
  shows "layer_tally f T sp ps' layer = layer_tally f T sp ps layer"
  by (simp only: layer_tally_def weighted_votes_mset [OF assms])

lemma proposals_of_mset:
  assumes "mset results' = mset results"
  shows "mset (proposals_of ext results') = mset (proposals_of ext results)"
  using assms by (simp only: proposals_of_def mset_map)

lemma total_examples_mset:
  assumes "mset results' = mset results"
  shows "total_examples results' = total_examples results"
proof -
  have "total_examples results' = sum_mset (mset (map (\<lambda>r. num_examples (snd r)) results'))"
    by (simp only: total_examples_def sum_mset_sum_list)
  also have "\<dots> = sum_mset (mset (map (\<lambda>r. num_examples (snd r)) results))"
    using assms by (simp only: mset_map)
  also have "\<dots> = total_examples results"
    by (simp only: total_examples_def sum_mset_sum_list)
  finally show ?thesis .
qed


lemma round_tally_permuted:
  assumes "mset results' = mset results"
  shows "(round_tally ext self results' = Inr v) = (round_tally ext self results = Inr v)"
proof -
  obtain sp layers where v: "v = (sp, layers)" by (cases v)
  have s: "set results' = set results" using assms by (rule mset_eq_setD)
  have p: "mset (proposals_of ext results') = mset (proposals_of ext results)"
    using assms by (rule proposals_of_mset)
  have "mset (map fst (proposals_of ext results')) = mset (map fst (proposals_of ext results))"
    using p by (simp only: mset_map)
  then have ps: "set (map fst (proposals_of ext results')) = set (map fst (proposals_of ext results))"
    by (rule mset_eq_setD)
  have lo: "layer_ok sp (map fst (proposals_of ext results')) layer =
            layer_ok sp (map fst (proposals_of ext results)) layer" for layer
    by (simp only: layer_ok_def ps)
  have lt: "map (layer_tally f T sp (proposals_of ext results')) ls =
            map (layer_tally f T sp (proposals_of ext results)) ls" for f T ls
    by (rule map_cong [OF refl]) (rule layer_tally_mset [OF p])
  have t: "total_examples results' = total_examples results"
    using assms by (rule total_examples_mset)
  have a: "(round_tally ext self results' = Inr (sp, layers)) =
     ((\<forall>r\<in>set results. \<exists>ps. parameters_to_ndarrays ext (parameters (snd r)) = Inr ps) \<and>
     (\<exists>p. central_parameters self = Some p \<and> parameters_to_ndarrays ext p = Inr sp) \<and>
     (\<forall>r\<in>set results. \<exists>j. decode_prune_indices ext (snd r) = Inr j) \<and>
     (\<forall>key\<in>set (state_dict ext (server_net self)). \<exists>p. second_last (split_dot key) = Inr p) \<and>
     (\<forall>layer\<in>set (prunable_layers 0 (state_dict ext (server_net self))).
        layer_ok sp (map fst (proposals_of ext results)) layer) \<and>
     layers = map (layer_tally (aggregate_frac self) (total_examples results) sp
                     (proposals_of ext results))
                (prunable_layers 0 (state_dict ext (server_net self))))"
    unfolding round_tally_Inr_iff [of ext self results'] s lo lt t ..
  show ?thesis
    unfolding v a round_tally_Inr_iff [of ext self results] ..
qed

section \<open>What the loop reads of a proposal\<close>

lemma py_contains_drop_index:
  assumes "i < 0 \<or> int n \<le> i" and "c < n"
  shows "py_contains c (JList (xs @ JInt i # ys)) = py_contains c (JList (xs @ ys))"
  using assms by (auto simp: list_ex_iff)

lemma client_lists_channel_drop_index:
  assumes "i < 0 \<or> int n \<le> i" and "c < n"
  shows "client_lists_channel key c (JObj (kvs1 @ (k, JList (xs @ JInt i # ys)) # kvs2)) =
         client_lists_channel key c (JObj (kvs1 @ (k, JList (xs @ ys)) # kvs2))"
proof (cases "map_of kvs1 key")
  case (Some v)
  then show ?thesis by (simp add: client_lists_channel_def map_add_def)
next
  case None
  show ?thesis
  proof (cases "k = key")
    case True
    with None py_contains_drop_index [OF assms, of xs ys] show ?thesis
      by (simp add: client_lists_channel_def map_add_def)
  next
    case False
    with None show ?thesis by (simp add: client_lists_channel_def map_add_def)
  qed
qed

lemma channel_cardinality_cong:
  "list_all2 (\<lambda>a b. client_lists_channel key c a = client_lists_channel key c b) cms cms' \<Longrightarrow>
   channel_cardinality key c ne i cms acc = channel_cardinality key c ne i cms' acc"
proof (induction cms cms' arbitrary: i acc rule: list_all2_induct)
  case Nil
  then show ?case by simp
next
  case (Cons a cms b cms')
  then show ?case by (simp split: sum.splits bool.splits)
qed

lemma cardinalities_loop_cong:
  "(\<And>c. c \<in> set chs \<Longrightarrow>
      list_all2 (\<lambda>a b. client_lists_channel key c a = client_lists_channel key c b) cms cms') \<Longrightarrow>
   cardinalities_loop key ne cms chs = cardinalities_loop key ne cms' chs"
proof (induction chs)
  case Nil
  then show ?case by simp
next
  case (Cons c chs)
  have a: "channel_cardinality key c ne 0 cms 0 = channel_cardinality key c ne 0 cms' 0"
    by (rule channel_cardinality_cong) (rule Cons.prems, simp)
  have b: "cardinalities_loop key ne cms chs = cardinalities_loop key ne cms' chs"
    by (rule Cons.IH) (rule Cons.prems, simp)
  show ?case by (simp only: cardinalities_loop.simps a b)
qed

section \<open>Facts about the two methods\<close>






section \<open>The example deployment, evaluated\<close>

lemma stub_strategy_eval:
  "stub_strategy =
     \<lparr> on_fit_config_fn = None, on_evaluate_config_fn = None, initial_parameters = None,
       accept_failures = True, fit_metrics_aggregation_fn = None,
       central_parameters = Some stub_parameters, aggregate_frac = 3 / 10,
       server_net = [''conv1.weight'', ''bn1.weight''] \<rparr>"
  by (simp add: stub_strategy_def fresh_strategy_def configure_fit_def init_def Let_def
      stub_externals_def)

lemma scenario_tally:
  "round_tally stub_externals stub_strategy scenario =
     Inr ([stub_tensor, stub_tensor], [([0, 0, 0, 0, 0, 80, 10, 0], [5])])"
  by code_simp

lemma tie_scenario_tally:
  "round_tally stub_externals stub_strategy tie_scenario =
     Inr ([stub_tensor, stub_tensor], [([0, 0, 0, 0, 0, 71, 30, 29], [5, 6])])"
  by code_simp


lemma stub_strategy_fields:
  "accept_failures stub_strategy" "fit_metrics_aggregation_fn stub_strategy = None"
  "central_parameters stub_strategy = Some stub_parameters"
  by (simp_all add: stub_strategy_eval)

lemma stub_externals_fields:
  "prune_model_with_indices stub_externals net ids = (net, Inr ids)"
  "parameters_to_ndarrays stub_externals stub_parameters = Inr [stub_tensor, stub_tensor]"
  by (simp_all add: stub_externals_def stub_parameters_def stub_tensor_def)

lemma scenario_aggregate:
  "aggregate_fit stub_externals stub_strategy 1 scenario [] =
     (stub_strategy, [missing_fn_warning], Inr (Some [stub_tensor, stub_tensor], []))"
proof -
  have ne: "scenario \<noteq> []" by (simp add: scenario_def)
  show ?thesis
    by (simp add: aggregate_fit_def ne stub_strategy_fields scenario_tally missing_fn_warning_def
        stub_externals_fields)
qed

lemma tie_scenario_rev: "rev tie_scenario \<noteq> tie_scenario"
  by (simp add: tie_scenario_def)

lemma out_of_range_tally:
  "round_tally stub_externals stub_strategy [(0::nat, client_result ''9'' 10)] =
     Inr ([stub_tensor, stub_tensor], [([0, 0, 0, 0, 0, 0, 0, 0], [])])"
  by code_simp





section \<open>The claims\<close>

text \<open>
  C3. With no results, or with failures when failures are not accepted, \<^verbatim>\<open>aggregate_fit\<close>
  returns \<^verbatim>\<open>(None, {})\<close>, logs nothing and leaves the strategy, hence the parameters it
  holds, as they were.
\<close>

theorem aggregate_fit_noop:
  assumes "results = [] \<or> (failures \<noteq> [] \<and> \<not> accept_failures self)"
  shows "aggregate_fit ext self server_round results failures = (self, [], Inr (None, []))"
  using assms by (auto simp: aggregate_fit_def)

theorem aggregate_fit_noop_witness:
  "aggregate_fit stub_externals stub_strategy 1 [] ([] :: nat failure list)
     = (stub_strategy, [], Inr (None, [])) \<and>
   aggregate_fit stub_externals (stub_strategy\<lparr>accept_failures := False\<rparr>) 2 scenario
       [FailedException (ExternalError ''timeout'')]
     = (stub_strategy\<lparr>accept_failures := False\<rparr>, [], Inr (None, []))"
  using aggregate_fit_noop [of "[]" "[] :: nat failure list" stub_strategy stub_externals 1]
    aggregate_fit_noop [of scenario "[FailedException (ExternalError ''timeout'')]"
      "stub_strategy\<lparr>accept_failures := False\<rparr>" stub_externals 2]
  by simp



text \<open>
  C1, evaluated on the spec's scenario. The round decides to prune channel 5 of the
  convolution, and \<^verbatim>\<open>aggregate_fit\<close> returns the two tensors deserialised from the
  broadcast parameters, each still with 8 channels: the returned set is the one from before
  the pruning, not the pruned one.
\<close>

theorem returns_unpruned_parameters:
  "round_tally stub_externals stub_strategy scenario =
     Inr ([stub_tensor, stub_tensor], [([0, 0, 0, 0, 0, 80, 10, 0], [5])]) \<and>
   aggregate_fit stub_externals stub_strategy 1 scenario [] =
     (stub_strategy, [missing_fn_warning], Inr (Some [stub_tensor, stub_tensor], [])) \<and>
   parameters_to_ndarrays stub_externals stub_parameters = Inr [stub_tensor, stub_tensor] \<and>
   shape stub_tensor = [8]"
  by (simp add: scenario_tally scenario_aggregate stub_externals_fields stub_tensor_def)





text \<open>
  C8. In a round whose tally loop ends without an exception there is one prune list per
  prunable layer, and each list is free of duplicates (indeed ascending) and holds only
  indices below the first dimension of the layer's tensor in the server parameters.
\<close>

theorem decision_in_range_distinct:
  assumes "round_tally ext self results = Inr (sp, layers)"
    and "j < length layers"
  shows "length layers = length (prunable_layers 0 (state_dict ext (server_net self))) \<and>
         distinct (snd (layers ! j)) \<and> sorted (snd (layers ! j)) \<and>
         (\<exists>n. num_channels_at sp (fst (prunable_layers 0 (state_dict ext (server_net self)) ! j)) = Inr n \<and>
              (\<forall>c\<in>set (snd (layers ! j)). c < n))"
proof -
  let ?layer = "prunable_layers 0 (state_dict ext (server_net self)) ! j"
  from round_tally_layers(3) [OF assms] obtain n
    where n: "num_channels_at sp (fst ?layer) = Inr n"
    by (auto simp: layer_ok_def)
  then have cc: "channel_count sp (fst ?layer) = n" by (simp add: channel_count_def)
  have s: "snd (layers ! j) =
      filter (\<lambda>c. aggregate_frac self * of_int (total_examples results)
                \<le> of_int (weighted_votes (snd ?layer) c (proposals_of ext results))) [0..<n]"
    using round_tally_layers(2) [OF assms] cc by (simp add: layer_tally_snd)
  have "distinct (snd (layers ! j))" unfolding s by simp
  moreover have "sorted (snd (layers ! j))" unfolding s by (simp add: sorted_wrt_filter)
  moreover have "\<forall>c\<in>set (snd (layers ! j)). c < n" unfolding s by simp
  ultimately show ?thesis using round_tally_layers(1) [OF assms(1)] n by blast
qed

theorem decision_in_range_distinct_witness:
  "distinct [5, 6 :: nat] \<and> sorted [5, 6 :: nat] \<and>
   num_channels_at [stub_tensor, stub_tensor] 0 = Inr 8 \<and> list_all (\<lambda>c. c < 8) [5, 6 :: nat]"
proof -
  have j: "(0::nat) < length [([0, 0, 0, 0, 0, 71, 30, 29 :: int], [5, 6 :: nat])]" by simp
  have l: "fst (prunable_layers 0 (state_dict stub_externals (server_net stub_strategy)) ! 0) = 0"
    by code_simp
  have n: "num_channels_at [stub_tensor, stub_tensor] 0 = Inr 8" by code_simp
  from decision_in_range_distinct [OF tie_scenario_tally j] l n show ?thesis by simp
qed

text \<open>
  C6. For two lists of results that are permutations of each other, the tally loop gives the
  same cardinalities and the same prune lists for every layer (and the same deserialised
  server parameters), and it raises for the one exactly when it raises for the other.
\<close>

theorem tally_order_independent:
  assumes "mset results' = mset results"
  shows "(round_tally ext self results' = Inr v) = (round_tally ext self results = Inr v) \<and>
         ((\<exists>e. round_tally ext self results' = Inl e) = (\<exists>e. round_tally ext self results = Inl e))"
proof -
  have a: "(round_tally ext self results' = Inr w) = (round_tally ext self results = Inr w)" for w
    using assms by (rule round_tally_permuted)
  have l: "(\<exists>e. x = Inl e) = (\<forall>w. x \<noteq> Inr w)" for x :: "error + (ndarray list \<times> (int list \<times> nat list) list)"
    by (cases x) simp_all
  have "(\<exists>e. round_tally ext self results' = Inl e) = (\<exists>e. round_tally ext self results = Inl e)"
    unfolding l a ..
  with a show ?thesis by (simp only: simp_thms)
qed

theorem tally_order_independent_witness:
  "round_tally stub_externals stub_strategy (rev tie_scenario) =
     Inr ([stub_tensor, stub_tensor], [([0, 0, 0, 0, 0, 71, 30, 29], [5, 6])]) \<and>
   round_tally stub_externals stub_strategy tie_scenario =
     Inr ([stub_tensor, stub_tensor], [([0, 0, 0, 0, 0, 71, 30, 29], [5, 6])]) \<and>
   rev tie_scenario \<noteq> tie_scenario"
proof -
  have m: "mset (rev tie_scenario) = mset tie_scenario" by (rule mset_rev)
  from tally_order_independent [OF m, of stub_externals stub_strategy
      "([stub_tensor, stub_tensor], [([0, 0, 0, 0, 0, 71, 30, 29], [5, 6])])"]
    tie_scenario_tally tie_scenario_rev
  show ?thesis by (simp only: simp_thms)
qed

text \<open>
  C4, as the code has it. The loop never checks a proposed index against the channel count:
  it asks, for each channel of the layer, whether the client lists it. An integer outside
  \<open>[0, num_channels)\<close> in a client's list, under any key, therefore changes nothing: the
  layer's cardinalities (or the exception, if another client causes one) are those of the
  same proposals without that integer, and so is the prune list filtered from them.
\<close>

theorem out_of_range_index_ignored:
  assumes "i < 0 \<or> int num_channels \<le> i"
  shows "cardinalities key num_ex
           (cms1 @ JObj (kvs1 @ (k, JList (xs @ JInt i # ys)) # kvs2) # cms2) num_channels =
         cardinalities key num_ex
           (cms1 @ JObj (kvs1 @ (k, JList (xs @ ys)) # kvs2) # cms2) num_channels"
  unfolding cardinalities_def
proof (rule cardinalities_loop_cong)
  fix c assume "c \<in> set [0..<num_channels]"
  then have c: "c < num_channels" by simp
  show "list_all2 (\<lambda>a b. client_lists_channel key c a = client_lists_channel key c b)
          (cms1 @ JObj (kvs1 @ (k, JList (xs @ JInt i # ys)) # kvs2) # cms2)
          (cms1 @ JObj (kvs1 @ (k, JList (xs @ ys)) # kvs2) # cms2)"
    using client_lists_channel_drop_index [OF assms c, of key kvs1 k xs ys kvs2]
    by (simp add: list_all2_appendI list_all2_refl)
qed

theorem out_of_range_index_ignored_witness:
  "cardinalities ''conv1.out'' [10] [JObj [(''conv1.out'', JList [JInt 5, JInt 9])]] 8 =
     Inr [0, 0, 0, 0, 0, 10, 0, 0] \<and>
   cardinalities ''conv1.out'' [10] [JObj [(''conv1.out'', JList [JInt 5])]] 8 =
     Inr [0, 0, 0, 0, 0, 10, 0, 0]"
proof -
  have r: "(9::int) < 0 \<or> int 8 \<le> 9" by simp
  have e: "cardinalities ''conv1.out'' [10] [JObj [(''conv1.out'', JList [JInt 5])]] 8 =
             Inr [0, 0, 0, 0, 0, 10, 0, 0]"
    by code_simp
  from out_of_range_index_ignored [OF r, of "''conv1.out''" "[10]" "[]" "[]" "''conv1.out''"
      "[JInt 5]" "[]" "[]" "[]"] e
  show ?thesis by simp
qed

text \<open>
  C4 as stated fails: a client proposing channel 9 of an 8-channel layer does not make the
  round fail. The loop ends, no channel is tallied, and \<^verbatim>\<open>aggregate_fit\<close> returns parameters.
\<close>

theorem out_of_range_index_counterexample:
  "decode_prune_indices stub_externals (client_result ''9'' 10) =
     Inr (JObj [(''conv1.out'', JList [JInt 9])]) \<and>
   num_channels_at [stub_tensor, stub_tensor] 0 = Inr 8 \<and>
   round_tally stub_externals stub_strategy [(0::nat, client_result ''9'' 10)] =
     Inr ([stub_tensor, stub_tensor], [([0, 0, 0, 0, 0, 0, 0, 0], [])]) \<and>
   aggregate_fit stub_externals stub_strategy 1 [(0::nat, client_result ''9'' 10)] [] =
     (stub_strategy, [missing_fn_warning], Inr (Some [stub_tensor, stub_tensor], []))"
proof -
  have d: "decode_prune_indices stub_externals (client_result ''9'' 10) =
     Inr (JObj [(''conv1.out'', JList [JInt 9])])" by code_simp
  have n: "num_channels_at [stub_tensor, stub_tensor] 0 = Inr 8" by code_simp
  have a: "aggregate_fit stub_externals stub_strategy 1 [(0::nat, client_result ''9'' 10)] [] =
     (stub_strategy, [missing_fn_warning], Inr (Some [stub_tensor, stub_tensor], []))"
    by (simp add: aggregate_fit_def stub_strategy_fields out_of_range_tally missing_fn_warning_def
        stub_externals_fields)
  from d n a out_of_range_tally show ?thesis by simp
qed







end
